theory Spec2Isabelle
  imports Main
begin

section \<open>Template expressions of the chain designer\<close>

text \<open>
  The designer components of \<^verbatim>\<open>app/src/components/Designer.tsx\<close> derive the
  \<^verbatim>\<open>input_keys\<close> of a node from the template strings the user types. Strings are lists of
  8-bit characters here; a JavaScript \<^verbatim>\<open>Set<string>\<close> iterates in insertion order, so it is
  a list without repetitions, extended at the end.
\<close>

subsection \<open>Sets of names in insertion order\<close>

type_synonym strset = "string list"

definition set_has :: "strset \<Rightarrow> string \<Rightarrow> bool" where
  "set_has s x = (x \<in> set s)"

definition set_add :: "strset \<Rightarrow> string \<Rightarrow> strset" where
  "set_add s x = (if set_has s x then s else s @ [x])"

text \<open>
  \<^verbatim>\<open>const condAdd = (set1, set2, item) => (set2.has(item) ? set1 : set1.add(item));\<close>
\<close>

definition condAdd :: "strset \<Rightarrow> strset \<Rightarrow> string \<Rightarrow> strset" where
  "condAdd set1 set2 item = (if set_has set2 item then set1 else set_add set1 item)"

subsection \<open>Character classes of the patterns\<close>

definition identStartChars :: string where
  "identStartChars = ''_ABCDEFGHIJKLMNOPQRSTUVWXYZabcdefghijklmnopqrstuvwxyz''"

definition digitChars :: string where
  "digitChars = ''0123456789''"

text \<open>\<^verbatim>\<open>[_A-Za-z]\<close>\<close>

definition identStart :: "char \<Rightarrow> bool" where
  "identStart c = (c \<in> set identStartChars)"

text \<open>\<^verbatim>\<open>[_A-Za-z0-9]\<close>\<close>

definition identChar :: "char \<Rightarrow> bool" where
  "identChar c = (c \<in> set identStartChars \<or> c \<in> set digitChars)"

text \<open>\<^verbatim>\<open>[^\{\}]\<close>\<close>

definition notBrace :: "char \<Rightarrow> bool" where
  "notBrace c = (c \<noteq> CHR ''{'' \<and> c \<noteq> CHR ''}'')"

text \<open>\<^verbatim>\<open>[^:\{\}]\<close>\<close>

definition argChar :: "char \<Rightarrow> bool" where
  "argChar c = (c \<noteq> CHR '':'' \<and> c \<noteq> CHR ''{'' \<and> c \<noteq> CHR ''}'')"

text \<open>
  The dot of a pattern matches every character but a line terminator; of the four line
  terminators of JavaScript, line feed and carriage return are 8-bit characters.
\<close>

definition dotChar :: "char \<Rightarrow> bool" where
  "dotChar c = (c \<noteq> CHR 0x0A \<and> c \<noteq> CHR 0x0D)"

subsection \<open>Patterns\<close>

text \<open>
  A pattern is modelled by what it does at the start of the text that is left: it fails, or
  it yields the matched text and its capture groups, a group that took no part being
  \<open>None\<close> (\<^verbatim>\<open>undefined\<close>).
\<close>

type_synonym regex = "string \<Rightarrow> (string \<times> string option list) option"

text \<open>
  \<^verbatim>\<open>/\{(join|parse_json|let|expr|int|float):([^:\{\}]+)(:([^:\{\}]+))?\}|(\{([^\{\}]*)\})/g\<close>

  The first alternative: an opening brace, one of the six words, a colon, a non-empty run of
  characters other than colon and braces, optionally a colon and a second such run, a
  closing brace. No word is a prefix of another, so at most one of them can stand at the
  start. A run is greedy; a shorter run is followed by a character of the run's own class,
  which is neither the colon nor the brace the pattern wants next, so only the longest run
  can lead to a match. The second alternative is tried where the first fails: a brace, the
  longest run of characters other than braces, a brace.
\<close>

definition directiveWords :: "string list" where
  "directiveWords = [''join'', ''parse_json'', ''let'', ''expr'', ''int'', ''float'']"

definition startsWith :: "char \<Rightarrow> string \<Rightarrow> bool" where
  "startsWith c s = (case s of [] \<Rightarrow> False | x # _ \<Rightarrow> x = c)"

text \<open>What follows the word \<open>d\<close> in the first alternative, on the text \<open>r\<close> after the brace.\<close>

definition matchDirectiveArgs :: "string \<Rightarrow> string \<Rightarrow> (string \<times> string option list) option" where
  "matchDirectiveArgs d r =
     (let r1 = drop (length d + 1) r;
          p1 = takeWhile argChar r1; r2 = dropWhile argChar r1;
          p2 = takeWhile argChar (tl r2); r4 = dropWhile argChar (tl r2)
      in
        if take (length d + 1) r \<noteq> d @ '':'' then None
        else if p1 = [] then None
        else if startsWith (CHR '':'') r2 \<and> p2 \<noteq> [] \<and> startsWith (CHR ''}'') r4 then
          Some (''{'' @ d @ '':'' @ p1 @ '':'' @ p2 @ ''}'',
                [Some d, Some p1, Some ('':'' @ p2), Some p2, None, None])
        else if startsWith (CHR ''}'') r2 then
          Some (''{'' @ d @ '':'' @ p1 @ ''}'',
                [Some d, Some p1, None, None, None, None])
        else None)"

fun firstMatch :: "string list \<Rightarrow> string \<Rightarrow> (string \<times> string option list) option" where
  "firstMatch [] r = None"
| "firstMatch (d # ds) r =
     (case matchDirectiveArgs d r of Some m \<Rightarrow> Some m | None \<Rightarrow> firstMatch ds r)"

definition matchDirective :: regex where
  "matchDirective s =
     (if startsWith (CHR ''{'') s then firstMatch directiveWords (tl s) else None)"

definition matchStd :: regex where
  "matchStd s =
     (let v = takeWhile notBrace (tl s) in
        if startsWith (CHR ''{'') s \<and> startsWith (CHR ''}'') (dropWhile notBrace (tl s)) then
          Some (''{'' @ v @ ''}'',
                [None, None, None, None, Some (''{'' @ v @ ''}''), Some v])
        else None)"

definition extendedFormatterRegex :: regex where
  "extendedFormatterRegex s =
     (case matchDirective s of Some m \<Rightarrow> Some m | None \<Rightarrow> matchStd s)"

text \<open>
  \<^verbatim>\<open>/{(.*?)}/g\<close> of the LLM designer: a brace, the shortest run of characters that are no
  line terminators, a brace. The run is lazy, so it ends at the first closing brace, and the
  pattern fails where a line terminator comes before one.
\<close>

definition lazyDot :: "char \<Rightarrow> bool" where
  "lazyDot c = (c \<noteq> CHR ''}'' \<and> dotChar c)"

definition llmPromptRegex :: regex where
  "llmPromptRegex s =
     (let v = takeWhile lazyDot (tl s) in
        if startsWith (CHR ''{'') s \<and> startsWith (CHR ''}'') (dropWhile lazyDot (tl s)) then
          Some (''{'' @ v @ ''}'', [Some v])
        else None)"

text \<open>\<^verbatim>\<open>/\{([a-zA-Z0-9_]+)\}/g\<close> of the API designer.\<close>

definition apiVarRegex :: regex where
  "apiVarRegex s =
     (let v = takeWhile identChar (tl s) in
        if startsWith (CHR ''{'') s \<and> v \<noteq> [] \<and> startsWith (CHR ''}'') (dropWhile identChar (tl s)) then
          Some (''{'' @ v @ ''}'', [Some v])
        else None)"

subsection \<open>Replacing every match\<close>

text \<open>
  \<^verbatim>\<open>text.replace(regex, callback)\<close> with a global pattern: one pass from left to right; at
  each position the pattern is tried, a match is replaced by what the callback returns and
  the pass goes on behind it, and a character where the pattern fails is copied. The
  callbacks of the designers update a state, which is threaded through here. (Where a match
  is empty, JavaScript puts the replacement and copies the next character; the patterns
  above all start with a brace and never match the empty text.)
\<close>

type_synonym 's reducer = "'s \<Rightarrow> string \<Rightarrow> string option list \<Rightarrow> 's \<times> string"

function replaceMatches :: "regex \<Rightarrow> 's reducer \<Rightarrow> 's \<Rightarrow> string \<Rightarrow> 's \<times> string" where
  "replaceMatches rx f st [] = (st, [])"
| "replaceMatches rx f st (c # cs) =
     (case rx (c # cs) of
        None \<Rightarrow> (case replaceMatches rx f st cs of (st2, out) \<Rightarrow> (st2, c # out))
      | Some (m, gs) \<Rightarrow>
          (case f st m gs of (st1, tok) \<Rightarrow>
             (case replaceMatches rx f st1 (if m = [] then cs else drop (length m) (c # cs)) of
                (st2, out) \<Rightarrow> (st2, tok @ (if m = [] then [c] else []) @ out))))"
  by pat_completeness auto
termination
  by (relation "measure (\<lambda>(rx, f, st, s). length s)") auto

declare replaceMatches.simps [simp del]

text \<open>
  Modelled from the spec: the class \<^verbatim>\<open>FormatReducer\<close> of \<^verbatim>\<open>app/src/util/FormatReducer\<close>,
  which is not among the sources. The spec (4.2): given a pattern, an initial-state
  constructor, a reduction function and a finalize callback, a single left-to-right pass
  replaces every matched token with the rendered token and threads the state between
  matches; unmatched text passes through unchanged; after the pass, finalize runs once on
  the final state. The result here is what finalize is given back and the rendered text.
\<close>

definition format :: "regex \<Rightarrow> 's \<Rightarrow> 's reducer \<Rightarrow> ('s \<Rightarrow> 'r) \<Rightarrow> string \<Rightarrow> 'r \<times> string" where
  "format rx initialState reduceFunc finalize text =
     (case replaceMatches rx reduceFunc initialState text of
        (st, rendered) \<Rightarrow> (finalize st, rendered))"

subsection \<open>The reducer of the Reformat designer\<close>

text \<open>\<^verbatim>\<open>x || d\<close> on an optional string: \<^verbatim>\<open>undefined\<close> and the empty string give \<open>d\<close>.\<close>

definition orElse :: "string option \<Rightarrow> string \<Rightarrow> string" where
  "orElse x d = (case x of None \<Rightarrow> d | Some s \<Rightarrow> if s = [] then d else s)"

text \<open>An optional string inside a template literal.\<close>

definition jsString :: "string option \<Rightarrow> string" where
  "jsString x = (case x of None \<Rightarrow> ''undefined'' | Some s \<Rightarrow> s)"

text \<open>Truthiness of an optional string.\<close>

definition truthy :: "string option \<Rightarrow> bool" where
  "truthy x = (case x of None \<Rightarrow> False | Some s \<Rightarrow> s \<noteq> [])"

text \<open>
  \<^verbatim>\<open>const variable = expr.match(/^[_A-Za-z0-9]+/)?.[0] || '';\<close>
  \<^verbatim>\<open>return [variable, expr.slice(variable.length)];\<close>
\<close>

definition parseFormatExpression :: "string \<Rightarrow> string \<times> string" where
  "parseFormatExpression expr =
     (let variable = takeWhile identChar expr in (variable, drop (length variable) expr))"

definition spanExpr :: "string \<Rightarrow> string" where
  \<open>spanExpr body = ''<span class="expr">'' @ body @ ''</span>''\<close>

definition spanVarName :: "string \<Rightarrow> string" where
  \<open>spanVarName v = ''<span class="var-name">'' @ v @ ''</span>''\<close>

definition errorToken :: string where
  \<open>errorToken = ''<span class="error">ERROR</span>''\<close>

text \<open>\<^verbatim>\<open>/[_A-Za-z][_A-Za-z0-9]*/g\<close>, the identifiers inside the first argument of \<^verbatim>\<open>expr\<close>.\<close>

definition identRegex :: regex where
  "identRegex s =
     (case s of
        [] \<Rightarrow> None
      | c # r \<Rightarrow> if identStart c then Some (c # takeWhile identChar r, []) else None)"

type_synonym ExtendedFormatterState = "strset \<times> strset"

text \<open>
  \<^verbatim>\<open>extendedFormatterReduceFunc\<close>. The copies \<^verbatim>\<open>newInputs\<close> and \<^verbatim>\<open>newInternal\<close> are the values
  \<open>inputs\<close> and \<open>internal\<close>; in each returned pair \<^verbatim>\<open>condAdd\<close> is evaluated before the
  internal set is extended.
\<close>

fun extendedFormatterReduceFunc ::
  "ExtendedFormatterState \<Rightarrow> string \<Rightarrow> string option \<Rightarrow> string option \<Rightarrow> string option \<Rightarrow>
   string option \<Rightarrow> string option \<Rightarrow> string option \<Rightarrow> ExtendedFormatterState \<times> string" where
  "extendedFormatterReduceFunc (inputs, internal) m exprType exprParam1 ep2Group exprParam2
     stdExpr stdExprVar =
     (if exprType = Some ''parse_json'' \<or> exprType = Some ''let'' \<or> exprType = Some ''int'' \<or>
         exprType = Some ''float'' then
        (case parseFormatExpression (orElse exprParam1 []) of (variable, expr) \<Rightarrow>
           ((condAdd inputs internal variable, set_add internal (orElse exprParam2 ''data'')),
            spanExpr (''{'' @ jsString exprType @ '':'' @ spanVarName variable @ expr @ '':'' @
                      jsString exprParam2 @ ''}'')))
      else if exprType = Some ''join'' then
        (case parseFormatExpression (orElse exprParam1 []) of (variable, expr) \<Rightarrow>
           ((condAdd inputs internal variable, set_add (set_add internal ''item'') ''index''),
            spanExpr (''{'' @ jsString exprType @ '':'' @ spanVarName variable @ expr @ '':'' @
                      jsString exprParam2 @ ''}'')))
      else if exprType = Some ''expr'' then
        (case (case exprParam1 of
                 None \<Rightarrow> (inputs, None)
               | Some e \<Rightarrow>
                   (case replaceMatches identRegex
                           (\<lambda>acc variable gs. (condAdd acc internal variable, spanVarName variable))
                           inputs e of
                      (newInputs, formatted) \<Rightarrow> (newInputs, Some formatted)))
         of (newInputs, formatted) \<Rightarrow>
           ((newInputs, set_add internal (orElse exprParam2 ''data'')),
            spanExpr (''{'' @ jsString exprType @ '':'' @ jsString formatted @ '':'' @
                      jsString exprParam2 @ ''}'')))
      else if truthy stdExpr then
        (case parseFormatExpression (orElse stdExprVar []) of (variable, expr) \<Rightarrow>
           ((condAdd inputs internal variable, internal),
            spanExpr (''{'' @ spanVarName variable @ expr @ ''}'')))
      else ((inputs, internal), errorToken))"

text \<open>
  The callback of \<^verbatim>\<open>replace\<close> is given the match and then the six groups of the pattern in
  order.
\<close>

definition group :: "string option list \<Rightarrow> nat \<Rightarrow> string option" where
  "group gs i = (if i < length gs then gs ! i else None)"

definition extendedReducer :: "ExtendedFormatterState reducer" where
  "extendedReducer st m gs =
     extendedFormatterReduceFunc st m (group gs 0) (group gs 1) (group gs 2) (group gs 3)
       (group gs 4) (group gs 5)"

text \<open>
  The \<^verbatim>\<open>formatReducer\<close> of \<^verbatim>\<open>ReformatSpecDesigner\<close>: both sets start empty, and finalize
  stores \<^verbatim>\<open>Array.from(inputs)\<close> as the variables, which the designer writes to the node as
  \<^verbatim>\<open>input_keys\<close>.
\<close>

definition reformatFormat :: "string \<Rightarrow> string list \<times> string" where
  "reformatFormat text = format extendedFormatterRegex ([], []) extendedReducer fst text"

definition reformatInputKeys :: "string \<Rightarrow> string list" where
  "reformatInputKeys text = fst (reformatFormat text)"

text \<open>
  The \<^verbatim>\<open>formatReducer\<close> of \<^verbatim>\<open>LLMSpecDesigner\<close>: the state is one set, and the callback adds
  the whole first group to it.
\<close>

definition llmReducer :: "strset reducer" where
  "llmReducer variables m gs =
     (set_add variables (jsString (group gs 0)),
      spanExpr (''{'' @ spanVarName (jsString (group gs 0)) @ ''}''))"

definition llmFormat :: "string \<Rightarrow> string list \<times> string" where
  "llmFormat text = format llmPromptRegex [] llmReducer (\<lambda>variables. variables) text"

definition llmInputKeys :: "string \<Rightarrow> string list" where
  "llmInputKeys text = fst (llmFormat text)"

section \<open>The chain spec tree\<close>

text \<open>
  Modelled from the spec: the types of \<^verbatim>\<open>app/src/model/specs\<close>, which are not among the
  sources. The spec (3) gives five variants, each with a \<^verbatim>\<open>chain_id\<close>: the LLM spec (prompt,
  llm_key, output_key, input_keys), the Sequential spec (chains), the Case spec
  (categorization_key, cases, default_case), the Reformat spec (formatters, input_keys) and
  the API spec (url, method, headers, body, output_key, input_keys). The arguments of the
  constructors are these fields in this order, behind the id. A mapping is the list of its
  entries in the iteration order of the object; the keys of an object are distinct.
\<close>

datatype ChainSpec =
    LLMSpec nat string string string "string list"
  | SequentialSpec nat "ChainSpec list"
  | CaseSpec nat string "(string \<times> ChainSpec) list" "ChainSpec option"
  | ReformatSpec nat "(string \<times> string) list" "string list"
  | APISpec nat string string "(string \<times> string) list" "string option" string "string list"

fun chain_id :: "ChainSpec \<Rightarrow> nat" where
  "chain_id (LLMSpec i _ _ _ _) = i"
| "chain_id (SequentialSpec i _) = i"
| "chain_id (CaseSpec i _ _ _) = i"
| "chain_id (ReformatSpec i _ _) = i"
| "chain_id (APISpec i _ _ _ _ _ _) = i"

text \<open>
  Modelled from the spec: the five literal type strings of the variant tag (spec, 6), the
  keys of \<^verbatim>\<open>specTypeOptions\<close> that the menus of the designer pass to the insert operation.
\<close>

datatype ChainType = llm_spec | sequential_spec | case_spec | reformat_spec | api_spec

text \<open>
  The ids of all nodes of a tree, the node before its children, the cases of a Case spec in
  their order before its default case.
\<close>

fun chainIds :: "ChainSpec \<Rightarrow> nat list"
  and chainIdsOfChains :: "ChainSpec list \<Rightarrow> nat list"
  and chainIdsOfCases :: "(string \<times> ChainSpec) list \<Rightarrow> nat list" where
  "chainIds (LLMSpec i p l out ks) = [i]"
| "chainIds (SequentialSpec i cs) = i # chainIdsOfChains cs"
| "chainIds (CaseSpec i k cs d) =
     i # chainIdsOfCases cs @ (case d of None \<Rightarrow> [] | Some t \<Rightarrow> chainIds t)"
| "chainIds (ReformatSpec i fs ks) = [i]"
| "chainIds (APISpec i u m h b out ks) = [i]"
| "chainIdsOfChains [] = []"
| "chainIdsOfChains (c # cs) = chainIds c @ chainIdsOfChains cs"
| "chainIdsOfCases [] = []"
| "chainIdsOfCases ((k, c) # cs) = chainIds c @ chainIdsOfCases cs"

subsection \<open>Replacing a node\<close>

text \<open>
  Modelled from the spec: \<^verbatim>\<open>updateChainSpec\<close> of \<^verbatim>\<open>app/src/model/spec_control\<close>, which is not
  among the sources; the session calls it with the working tree and the new node and reads
  \<^verbatim>\<open>found\<close> and \<^verbatim>\<open>chainSpec\<close> of its result. The spec (4.4, replace): a depth-first search
  as in find (a node matches if its own id is the id looked for, checked before descending;
  the chains of a Sequential spec in order; the cases of a Case spec in map order, then the
  default case); the node found is substituted as a whole and the containers above it are
  rebuilt; if no node matches, found is false and the tree is unchanged. The id looked for
  is the id of the new node.
\<close>

fun replaceSpec :: "ChainSpec \<Rightarrow> ChainSpec \<Rightarrow> bool \<times> ChainSpec"
  and replaceInChains :: "ChainSpec list \<Rightarrow> ChainSpec \<Rightarrow> bool \<times> ChainSpec list"
  and replaceInCases ::
    "(string \<times> ChainSpec) list \<Rightarrow> ChainSpec \<Rightarrow> bool \<times> (string \<times> ChainSpec) list" where
  "replaceSpec (LLMSpec i p l out ks) new =
     (if i = chain_id new then (True, new) else (False, LLMSpec i p l out ks))"
| "replaceSpec (SequentialSpec i cs) new =
     (if i = chain_id new then (True, new)
      else case replaceInChains cs new of (found, cs') \<Rightarrow> (found, SequentialSpec i cs'))"
| "replaceSpec (CaseSpec i k cs d) new =
     (if i = chain_id new then (True, new)
      else case replaceInCases cs new of
        (found, cs') \<Rightarrow>
          if found then (True, CaseSpec i k cs' d)
          else (case d of
                  None \<Rightarrow> (False, CaseSpec i k cs d)
                | Some t \<Rightarrow>
                    (case replaceSpec t new of
                       (found', t') \<Rightarrow> (found', CaseSpec i k cs (Some t')))))"
| "replaceSpec (ReformatSpec i fs ks) new =
     (if i = chain_id new then (True, new) else (False, ReformatSpec i fs ks))"
| "replaceSpec (APISpec i u m h b out ks) new =
     (if i = chain_id new then (True, new) else (False, APISpec i u m h b out ks))"
| "replaceInChains [] new = (False, [])"
| "replaceInChains (c # cs) new =
     (case replaceSpec c new of
        (found, c') \<Rightarrow>
          if found then (True, c' # cs)
          else (case replaceInChains cs new of (found', cs') \<Rightarrow> (found', c # cs')))"
| "replaceInCases [] new = (False, [])"
| "replaceInCases ((k, c) # cs) new =
     (case replaceSpec c new of
        (found, c') \<Rightarrow>
          if found then (True, (k, c') # cs)
          else (case replaceInCases cs new of (found', cs') \<Rightarrow> (found', (k, c) # cs')))"

text \<open>The working tree of the session may be \<^verbatim>\<open>null\<close>: then no node matches.\<close>

definition updateChainSpec :: "ChainSpec option \<Rightarrow> ChainSpec \<Rightarrow> bool \<times> ChainSpec option" where
  "updateChainSpec tree spec =
     (case tree of
        None \<Rightarrow> (False, None)
      | Some t \<Rightarrow> (case replaceSpec t spec of (found, t') \<Rightarrow> (found, Some t')))"

subsection \<open>Inserting a node\<close>

datatype error = NodeNotFound nat | InvalidInsertTarget

text \<open>
  Modelled from the spec: the default node that insert constructs, part of
  \<^verbatim>\<open>insertChainSpec\<close> of \<^verbatim>\<open>app/src/model/spec_control\<close>. The spec (4.4) fixes its variant and
  its id; the fields it does not give are empty here.
\<close>

fun defaultSpec :: "ChainType \<Rightarrow> nat \<Rightarrow> ChainSpec" where
  "defaultSpec llm_spec i = LLMSpec i [] [] [] []"
| "defaultSpec sequential_spec i = SequentialSpec i []"
| "defaultSpec case_spec i = CaseSpec i [] [] None"
| "defaultSpec reformat_spec i = ReformatSpec i [] []"
| "defaultSpec api_spec i = APISpec i [] [] [] None [] []"

fun decimal :: "nat \<Rightarrow> string" where
  "decimal n =
     (if n < 10 then [digitChars ! n] else decimal (n div 10) @ [digitChars ! (n mod 10)])"

declare decimal.simps [simp del]

text \<open>
  Modelled from the spec: the generated placeholder label of a new case entry, part of
  \<^verbatim>\<open>insertChainSpec\<close> of \<^verbatim>\<open>app/src/model/spec_control\<close>. The spec does not give its text; here
  it is made from the id of the new node.
\<close>

definition placeholderLabel :: "ChainSpec \<Rightarrow> string" where
  "placeholderLabel new = ''case_'' @ decimal (chain_id new)"

datatype 'a located = Absent | NotContainer | Inserted 'a

text \<open>
  Modelled from the spec: \<^verbatim>\<open>insertChainSpec\<close> of \<^verbatim>\<open>app/src/model/spec_control\<close>, which is not
  among the sources. The spec (4.4, insert): on the empty tree the parent and the index are
  ignored and the default node of the type, with the next id, is the new root; otherwise
  the node with the id of the parent is located; a Sequential spec takes the new node into
  its chains at the index, clamped to the length; a Case spec takes it as a new case entry
  with a generated placeholder label at the position; if the id does not resolve to a
  container the operation fails.
\<close>

fun insertSpec :: "ChainSpec \<Rightarrow> ChainSpec \<Rightarrow> nat \<Rightarrow> nat \<Rightarrow> ChainSpec located"
  and insertInChains :: "ChainSpec list \<Rightarrow> ChainSpec \<Rightarrow> nat \<Rightarrow> nat \<Rightarrow> ChainSpec list located"
  and insertInCases ::
    "(string \<times> ChainSpec) list \<Rightarrow> ChainSpec \<Rightarrow> nat \<Rightarrow> nat \<Rightarrow> (string \<times> ChainSpec) list located" where
  "insertSpec (LLMSpec i p l out ks) new parentId index =
     (if i = parentId then NotContainer else Absent)"
| "insertSpec (SequentialSpec i cs) new parentId index =
     (if i = parentId then Inserted (SequentialSpec i (take index cs @ [new] @ drop index cs))
      else case insertInChains cs new parentId index of
        Absent \<Rightarrow> Absent
      | NotContainer \<Rightarrow> NotContainer
      | Inserted cs' \<Rightarrow> Inserted (SequentialSpec i cs'))"
| "insertSpec (CaseSpec i k cs d) new parentId index =
     (if i = parentId then
        Inserted (CaseSpec i k (take index cs @ [(placeholderLabel new, new)] @ drop index cs) d)
      else case insertInCases cs new parentId index of
        NotContainer \<Rightarrow> NotContainer
      | Inserted cs' \<Rightarrow> Inserted (CaseSpec i k cs' d)
      | Absent \<Rightarrow>
          (case d of
             None \<Rightarrow> Absent
           | Some t \<Rightarrow>
               (case insertSpec t new parentId index of
                  Absent \<Rightarrow> Absent
                | NotContainer \<Rightarrow> NotContainer
                | Inserted t' \<Rightarrow> Inserted (CaseSpec i k cs (Some t')))))"
| "insertSpec (ReformatSpec i fs ks) new parentId index =
     (if i = parentId then NotContainer else Absent)"
| "insertSpec (APISpec i u m h b out ks) new parentId index =
     (if i = parentId then NotContainer else Absent)"
| "insertInChains [] new parentId index = Absent"
| "insertInChains (c # cs) new parentId index =
     (case insertSpec c new parentId index of
        NotContainer \<Rightarrow> NotContainer
      | Inserted c' \<Rightarrow> Inserted (c' # cs)
      | Absent \<Rightarrow>
          (case insertInChains cs new parentId index of
             Absent \<Rightarrow> Absent
           | NotContainer \<Rightarrow> NotContainer
           | Inserted cs' \<Rightarrow> Inserted (c # cs')))"
| "insertInCases [] new parentId index = Absent"
| "insertInCases ((k, c) # cs) new parentId index =
     (case insertSpec c new parentId index of
        NotContainer \<Rightarrow> NotContainer
      | Inserted c' \<Rightarrow> Inserted ((k, c') # cs)
      | Absent \<Rightarrow>
          (case insertInCases cs new parentId index of
             Absent \<Rightarrow> Absent
           | NotContainer \<Rightarrow> NotContainer
           | Inserted cs' \<Rightarrow> Inserted ((k, c) # cs')))"

definition insertGeneratedChainSpec ::
  "ChainSpec option \<Rightarrow> nat \<Rightarrow> ChainType \<Rightarrow> nat \<Rightarrow> nat \<Rightarrow> error + ChainSpec" where
  "insertGeneratedChainSpec tree nextId type parentId index =
     (case tree of
        None \<Rightarrow> Inr (defaultSpec type nextId)
      | Some t \<Rightarrow>
          (case insertSpec t (defaultSpec type nextId) parentId index of
             Inserted t' \<Rightarrow> Inr t'
           | NotContainer \<Rightarrow> Inl InvalidInsertTarget
           | Absent \<Rightarrow> Inl InvalidInsertTarget))"

subsection \<open>Structural equality\<close>

text \<open>
  Modelled from the spec: \<^verbatim>\<open>deepEquals\<close> of \<^verbatim>\<open>app/src/util/sets\<close>, which is not among the
  sources. The spec (4.4, structuralEquals): two trees are equal iff their variant tags
  match and, recursively, the children of a Sequential spec compare as ordered lists, the
  cases of a Case spec as label-keyed maps, whatever their order, and their default cases
  compare, and all scalar fields compare by value. The formatters of a Reformat spec and
  the headers of an API spec are mappings and compare as maps too. Two mappings with
  distinct keys are equal as maps when they have as many entries and each entry of the
  first has an equal entry under its key in the second.
\<close>

definition mapEquals :: "(string \<times> string) list \<Rightarrow> (string \<times> string) list \<Rightarrow> bool" where
  "mapEquals a b = (length a = length b \<and> list_all (\<lambda>(k, v). map_of b k = Some v) a)"

fun structuralEquals :: "ChainSpec \<Rightarrow> ChainSpec \<Rightarrow> bool"
  and chainsEqual :: "ChainSpec list \<Rightarrow> ChainSpec list \<Rightarrow> bool"
  and casesWithin :: "(string \<times> ChainSpec) list \<Rightarrow> (string \<times> ChainSpec) list \<Rightarrow> bool" where
  "structuralEquals (LLMSpec i p l out ks) y =
     (case y of
        LLMSpec i' p' l' out' ks' \<Rightarrow> i = i' \<and> p = p' \<and> l = l' \<and> out = out' \<and> ks = ks'
      | _ \<Rightarrow> False)"
| "structuralEquals (SequentialSpec i cs) y =
     (case y of SequentialSpec i' cs' \<Rightarrow> i = i' \<and> chainsEqual cs cs' | _ \<Rightarrow> False)"
| "structuralEquals (CaseSpec i k cs d) y =
     (case y of
        CaseSpec i' k' cs' d' \<Rightarrow>
          i = i' \<and> k = k' \<and> length cs = length cs' \<and> casesWithin cs cs' \<and>
          (case d of
             None \<Rightarrow> d' = None
           | Some t \<Rightarrow> (case d' of None \<Rightarrow> False | Some t' \<Rightarrow> structuralEquals t t'))
      | _ \<Rightarrow> False)"
| "structuralEquals (ReformatSpec i fs ks) y =
     (case y of ReformatSpec i' fs' ks' \<Rightarrow> i = i' \<and> mapEquals fs fs' \<and> ks = ks' | _ \<Rightarrow> False)"
| "structuralEquals (APISpec i u m h b out ks) y =
     (case y of
        APISpec i' u' m' h' b' out' ks' \<Rightarrow>
          i = i' \<and> u = u' \<and> m = m' \<and> mapEquals h h' \<and> b = b' \<and> out = out' \<and> ks = ks'
      | _ \<Rightarrow> False)"
| "chainsEqual [] ys = (ys = [])"
| "chainsEqual (c # cs) ys =
     (case ys of [] \<Rightarrow> False | c' # cs' \<Rightarrow> structuralEquals c c' \<and> chainsEqual cs cs')"
| "casesWithin [] ys = True"
| "casesWithin ((k, c) # cs) ys =
     ((case map_of ys k of None \<Rightarrow> False | Some c' \<Rightarrow> structuralEquals c c') \<and>
      casesWithin cs ys)"

text \<open>The session compares two trees either of which may be \<^verbatim>\<open>null\<close>.\<close>

definition deepEquals :: "ChainSpec option \<Rightarrow> ChainSpec option \<Rightarrow> bool" where
  "deepEquals a b =
     (case a of
        None \<Rightarrow> b = None
      | Some x \<Rightarrow> (case b of None \<Rightarrow> False | Some y \<Rightarrow> structuralEquals x y))"

section \<open>The editor session\<close>

text \<open>
  The state of \<^verbatim>\<open>ChainSpecProvider\<close> in \<^verbatim>\<open>app/src/contexts/ChainSpecContext.tsx\<close>:
  \<^verbatim>\<open>chainSpec\<close> is the committed tree and \<^verbatim>\<open>dirtyChainSpec\<close> the working tree. Each operation
  takes the state and returns the state it leaves; an operation that throws returns the
  error and leaves the state as it was.
\<close>

record ChainSpecState =
  chainSpec :: "ChainSpec option"
  chainName :: string
  dirtyChainSpec :: "ChainSpec option"
  nextChainId :: nat
  revision :: "string option"
  isInteracting :: bool

definition initialState :: ChainSpecState where
  "initialState =
     \<lparr>chainSpec = None, chainName = [], dirtyChainSpec = None, nextChainId = 0,
      revision = None, isInteracting = False\<rparr>"

text \<open>\<^verbatim>\<open>setChains\<close>, which the context also exposes as \<^verbatim>\<open>setChainSpec\<close>.\<close>

definition setChains :: "ChainSpecState \<Rightarrow> ChainSpec \<Rightarrow> ChainSpecState" where
  "setChains s spec = s\<lparr>chainSpec := Some spec, dirtyChainSpec := Some spec\<rparr>"

definition insertChainSpec ::
  "ChainSpecState \<Rightarrow> ChainType \<Rightarrow> nat \<Rightarrow> nat \<Rightarrow> error + ChainSpecState" where
  "insertChainSpec s type chainId index =
     (case insertGeneratedChainSpec (dirtyChainSpec s) (nextChainId s) type chainId index of
        Inl e \<Rightarrow> Inl e
      | Inr newSpec \<Rightarrow> Inr ((setChains s newSpec)\<lparr>nextChainId := nextChainId s + 1\<rparr>))"

definition latestChainSpec :: "ChainSpecState \<Rightarrow> ChainSpec option" where
  "latestChainSpec s = dirtyChainSpec s"

text \<open>\<^verbatim>\<open>updateDirtyChainSpec\<close>, which the context exposes as \<^verbatim>\<open>updateChainSpec\<close>.\<close>

definition updateDirtyChainSpec :: "ChainSpecState \<Rightarrow> ChainSpec \<Rightarrow> error + ChainSpecState" where
  "updateDirtyChainSpec s spec =
     (case updateChainSpec (dirtyChainSpec s) spec of
        (found, result) \<Rightarrow>
          if \<not> found then Inl (NodeNotFound (chain_id spec))
          else Inr (s\<lparr>dirtyChainSpec := result\<rparr>))"

text \<open>\<^verbatim>\<open>return !!chainSpec && deepEquals(chainSpec, dirtyChainSpec);\<close>\<close>

definition readyToInteract :: "ChainSpecState \<Rightarrow> bool" where
  "readyToInteract s = (chainSpec s \<noteq> None \<and> deepEquals (chainSpec s) (dirtyChainSpec s))"

section \<open>The designer of an API node\<close>

text \<open>
  The state of \<^verbatim>\<open>APISpecDesigner\<close> in \<^verbatim>\<open>app/src/components/Designer.tsx\<close>: the texts of its
  inputs and the error flag of the headers. The field \<open>headers\<close> is the text the user
  typed, not the parsed value.
\<close>

type_synonym Headers = "(string \<times> string) list"

record APISpecDesignerState =
  url :: string
  method' :: string
  headers :: string
  headersError :: bool
  body :: "string option"
  outputKey :: string

text \<open>
  \<^verbatim>\<open>tryParseHeaders\<close>. \<^verbatim>\<open>JSON.parse\<close> is the parameter \<open>parse\<close>, which gives \<open>None\<close> where
  \<^verbatim>\<open>JSON.parse\<close> throws. The result is the error flag as the call leaves it and the value
  returned: \<^verbatim>\<open>spec.headers\<close>, the headers of the node the designer was rendered with, where
  the text does not parse.
\<close>

definition tryParseHeaders :: "(string \<Rightarrow> Headers option) \<Rightarrow> Headers \<Rightarrow> string \<Rightarrow> bool \<times> Headers" where
  "tryParseHeaders parse specHeaders str =
     (case parse str of Some h \<Rightarrow> (False, h) | None \<Rightarrow> (True, specHeaders))"

text \<open>
  The variables of the node: one set, filled from the url, the method, the headers text and
  the body, if it is neither \<^verbatim>\<open>null\<close> nor empty, in this order.
\<close>

definition apiAdd :: "strset reducer" where
  "apiAdd vars m gs = (set_add vars (jsString (group gs 0)), [])"

definition apiVars :: "APISpecDesignerState \<Rightarrow> string list" where
  "apiVars st =
     (let v1 = fst (replaceMatches apiVarRegex apiAdd [] (url st));
          v2 = fst (replaceMatches apiVarRegex apiAdd v1 (method' st));
          v3 = fst (replaceMatches apiVarRegex apiAdd v2 (headers st))
      in if truthy (body st) then fst (replaceMatches apiVarRegex apiAdd v3 (orElse (body st) []))
         else v3)"

text \<open>
  The effect that follows a change of the url, the method, the headers text, the body or
  the output key: the new state of the designer and the node it passes to
  \<^verbatim>\<open>updateChainSpec\<close>, which is \<^verbatim>\<open>spec\<close> with every field but the id replaced. The designer is
  rendered for API nodes only.
\<close>

fun apiSpecEffect ::
  "(string \<Rightarrow> Headers option) \<Rightarrow> ChainSpec \<Rightarrow> APISpecDesignerState \<Rightarrow>
   (APISpecDesignerState \<times> ChainSpec) option" where
  "apiSpecEffect parse (APISpec i u m h b out ks) st =
     (case tryParseHeaders parse h (headers st) of
        (err, hs) \<Rightarrow>
          Some (st\<lparr>headersError := err\<rparr>,
                APISpec i (url st) (method' st) hs (body st) (outputKey st) (apiVars st)))"
| "apiSpecEffect parse spec st = None"

text \<open>
  The user changes the headers text of the designer of the root node. \<^verbatim>\<open>Designer\<close> renders
  the committed tree (\<^verbatim>\<open>chainSpec: spec\<close> of the context), so the node the designer was
  rendered with is the root of the committed tree; the text is stored, the effect runs,
  and its node goes to \<^verbatim>\<open>updateChainSpec\<close> of the context, which is
  \<^verbatim>\<open>updateDirtyChainSpec\<close>.
\<close>

definition changeHeaders ::
  "(string \<Rightarrow> Headers option) \<Rightarrow> ChainSpecState \<Rightarrow> APISpecDesignerState \<Rightarrow> string \<Rightarrow>
   error + ChainSpecState \<times> APISpecDesignerState" where
  "changeHeaders parse s st text' =
     (case chainSpec s of
        None \<Rightarrow> Inr (s, st)
      | Some spec \<Rightarrow>
          (case apiSpecEffect parse spec (st\<lparr>headers := text'\<rparr>) of
             None \<Rightarrow> Inr (s, st)
           | Some (st', node) \<Rightarrow>
               (case updateDirtyChainSpec s node of
                  Inl e \<Rightarrow> Inl e
                | Inr s' \<Rightarrow> Inr (s', st'))))"

text \<open>
  A stand-in for \<^verbatim>\<open>JSON.parse\<close> on a session in which one text is typed that parses: it
  gives that text its value and fails on every other text.
\<close>

definition parseOnly :: "string \<Rightarrow> Headers \<Rightarrow> string \<Rightarrow> Headers option" where
  "parseOnly good h str = (if str = good then Some h else None)"

section \<open>Facts about the patterns and the pass\<close>

lemma takeWhile_stop:
  "list_all P xs \<Longrightarrow> \<not> P c \<Longrightarrow> takeWhile P (xs @ c # ys) = xs"
  by (simp add: list_all_iff)

lemma dropWhile_stop:
  "list_all P xs \<Longrightarrow> \<not> P c \<Longrightarrow> dropWhile P (xs @ c # ys) = c # ys"
  by (simp add: list_all_iff)

lemma matchDirectiveArgs_two:
  assumes "p1 \<noteq> []" "list_all argChar p1" "p2 \<noteq> []" "list_all argChar p2"
  shows "matchDirectiveArgs d (d @ '':'' @ p1 @ '':'' @ p2 @ ''}'' @ rest) =
    Some (''{'' @ d @ '':'' @ p1 @ '':'' @ p2 @ ''}'',
          [Some d, Some p1, Some ('':'' @ p2), Some p2, None, None])"
proof -
  have a: "\<not> argChar (CHR '':'')" "\<not> argChar (CHR ''}'')"
    by (simp_all add: argChar_def)
  show ?thesis
    using assms a
    by (simp add: matchDirectiveArgs_def Let_def takeWhile_stop dropWhile_stop startsWith_def)
qed

lemma matchDirectiveArgs_one:
  assumes "p1 \<noteq> []" "list_all argChar p1"
  shows "matchDirectiveArgs d (d @ '':'' @ p1 @ ''}'' @ rest) =
    Some (''{'' @ d @ '':'' @ p1 @ ''}'', [Some d, Some p1, None, None, None, None])"
proof -
  have a: "\<not> argChar (CHR '':'')" "\<not> argChar (CHR ''}'')"
    by (simp_all add: argChar_def)
  show ?thesis
    using assms a
    by (simp add: matchDirectiveArgs_def Let_def takeWhile_stop dropWhile_stop startsWith_def)
qed

lemma matchDirectiveArgs_word:
  "matchDirectiveArgs d r = Some m \<Longrightarrow> take (length d + 1) r = d @ '':''"
  by (simp add: matchDirectiveArgs_def Let_def split: if_splits)

lemma firstMatch_None:
  "(\<And>d. d \<in> set ds \<Longrightarrow> take (length d + 1) r \<noteq> d @ '':'') \<Longrightarrow> firstMatch ds r = None"
proof (induction ds)
  case Nil
  then show ?case by simp
next
  case (Cons d ds)
  have "matchDirectiveArgs d r = None"
    using Cons.prems [of d] matchDirectiveArgs_word [of d r] by (cases "matchDirectiveArgs d r") auto
  then show ?case using Cons by simp
qed


lemma other_word:
  assumes "d \<in> set directiveWords" "d' \<in> set directiveWords" "d' \<noteq> d"
  shows "take (length d' + 1) (d @ '':'' @ r) \<noteq> d' @ '':''"
  using assms unfolding directiveWords_def
  by (elim disjE | simp)+



lemma firstMatch_all_None:
  "(\<And>d. d \<in> set ds \<Longrightarrow> matchDirectiveArgs d r = None) \<Longrightarrow> firstMatch ds r = None"
  by (induction ds) simp_all

lemma firstMatch_only:
  assumes "d \<in> set ds"
    and other: "\<And>d'. d' \<in> set ds \<Longrightarrow> d' \<noteq> d \<Longrightarrow> matchDirectiveArgs d' r = None"
  shows "firstMatch ds r = matchDirectiveArgs d r"
proof (cases "matchDirectiveArgs d r")
  case None
  have "matchDirectiveArgs d' r = None" if "d' \<in> set ds" for d'
    using that other [of d'] None by (cases "d' = d") simp_all
  then have "firstMatch ds r = None"
    by (rule firstMatch_all_None)
  with None show ?thesis by simp
next
  case (Some m)
  from assms(1) other show ?thesis
  proof (induction ds)
    case Nil
    then show ?case by simp
  next
    case (Cons a ds)
    show ?case
    proof (cases "a = d")
      case True
      with Some show ?thesis by simp
    next
      case False
      with Cons.prems have "matchDirectiveArgs a r = None" "d \<in> set ds"
        by simp_all
      moreover have "firstMatch ds r = matchDirectiveArgs d r"
        using Cons.IH [OF \<open>d \<in> set ds\<close>] Cons.prems(2) by simp
      ultimately show ?thesis by simp
    qed
  qed
qed


lemma matchDirectiveArgs_fail:
  "take (length d + 1) r \<noteq> d @ '':'' \<Longrightarrow> matchDirectiveArgs d r = None"
  by (simp add: matchDirectiveArgs_def Let_def)

lemma firstMatch_word:
  assumes "d \<in> set directiveWords"
  shows "firstMatch directiveWords (d @ '':'' @ r) = matchDirectiveArgs d (d @ '':'' @ r)"
proof (rule firstMatch_only [OF assms])
  fix d' assume "d' \<in> set directiveWords" "d' \<noteq> d"
  then show "matchDirectiveArgs d' (d @ '':'' @ r) = None"
    using other_word [OF assms, of d' r] by (intro matchDirectiveArgs_fail)
qed


lemma regex_directive_two:
  assumes "d \<in> set directiveWords" "p1 \<noteq> []" "list_all argChar p1" "p2 \<noteq> []" "list_all argChar p2"
  shows "extendedFormatterRegex (''{'' @ d @ '':'' @ p1 @ '':'' @ p2 @ ''}'' @ rest) =
    Some (''{'' @ d @ '':'' @ p1 @ '':'' @ p2 @ ''}'',
          [Some d, Some p1, Some ('':'' @ p2), Some p2, None, None])"
proof -
  have "matchDirective (''{'' @ d @ '':'' @ p1 @ '':'' @ p2 @ ''}'' @ rest) =
      firstMatch directiveWords (d @ '':'' @ p1 @ '':'' @ p2 @ ''}'' @ rest)"
    by (simp add: matchDirective_def startsWith_def)
  also have "\<dots> = matchDirectiveArgs d (d @ '':'' @ p1 @ '':'' @ p2 @ ''}'' @ rest)"
    by (rule firstMatch_word [OF assms(1)])
  also have "\<dots> = Some (''{'' @ d @ '':'' @ p1 @ '':'' @ p2 @ ''}'',
          [Some d, Some p1, Some ('':'' @ p2), Some p2, None, None])"
    by (rule matchDirectiveArgs_two [OF assms(2-5)])
  finally show ?thesis
    by (simp only: extendedFormatterRegex_def option.case)
qed

lemma regex_directive_one:
  assumes "d \<in> set directiveWords" "p1 \<noteq> []" "list_all argChar p1"
  shows "extendedFormatterRegex (''{'' @ d @ '':'' @ p1 @ ''}'' @ rest) =
    Some (''{'' @ d @ '':'' @ p1 @ ''}'', [Some d, Some p1, None, None, None, None])"
proof -
  have "matchDirective (''{'' @ d @ '':'' @ p1 @ ''}'' @ rest) =
      firstMatch directiveWords (d @ '':'' @ p1 @ ''}'' @ rest)"
    by (simp add: matchDirective_def startsWith_def)
  also have "\<dots> = matchDirectiveArgs d (d @ '':'' @ p1 @ ''}'' @ rest)"
    by (rule firstMatch_word [OF assms(1)])
  also have "\<dots> = Some (''{'' @ d @ '':'' @ p1 @ ''}'', [Some d, Some p1, None, None, None, None])"
    by (rule matchDirectiveArgs_one [OF assms(2-3)])
  finally show ?thesis
    by (simp only: extendedFormatterRegex_def option.case)
qed

lemma regex_std:
  assumes "list_all notBrace w" "matchDirective (''{'' @ w @ ''}'' @ rest) = None"
  shows "extendedFormatterRegex (''{'' @ w @ ''}'' @ rest) =
    Some (''{'' @ w @ ''}'', [None, None, None, None, Some (''{'' @ w @ ''}''), Some w])"
proof -
  have a: "\<not> notBrace (CHR ''}'')"
    by (simp add: notBrace_def)
  have "matchStd (''{'' @ w @ ''}'' @ rest) =
    Some (''{'' @ w @ ''}'', [None, None, None, None, Some (''{'' @ w @ ''}''), Some w])"
    using assms(1) a
    by (simp add: matchStd_def Let_def startsWith_def takeWhile_stop dropWhile_stop)
  with assms(2) show ?thesis
    by (simp only: extendedFormatterRegex_def option.case)
qed


lemma replaceMatches_token:
  assumes "rx (tok @ rest) = Some (tok, gs)" "tok \<noteq> []"
  shows "replaceMatches rx f st (tok @ rest) =
    (case f st tok gs of (st1, r) \<Rightarrow>
       (case replaceMatches rx f st1 rest of (st2, out) \<Rightarrow> (st2, r @ out)))"
proof -
  from assms(2) obtain c cs where tok: "tok = c # cs"
    by (cases tok) auto
  have "replaceMatches rx f st (c # (cs @ rest)) =
    (case f st tok gs of (st1, r) \<Rightarrow>
       (case replaceMatches rx f st1 (drop (length tok) (c # (cs @ rest))) of
          (st2, out) \<Rightarrow> (st2, r @ out)))"
    using assms unfolding tok
    by (subst replaceMatches.simps(2)) (simp del: replaceMatches.simps)
  then show ?thesis
    unfolding tok by simp
qed


lemma take_word:
  assumes "take (length d + 1) r = d @ [c]" "list_all P d" "\<not> P c"
  shows "takeWhile P r = d"
proof -
  have "r = (d @ [c]) @ drop (length d + 1) r"
    using assms(1) append_take_drop_id [of "length d + 1" r] by simp
  then have "takeWhile P r = takeWhile P (d @ c # drop (length d + 1) r)"
    by simp
  also have "\<dots> = d"
    using assms(2,3) by (rule takeWhile_stop)
  finally show ?thesis .
qed

lemma word_no_colon:
  "d \<in> set directiveWords \<Longrightarrow> list_all (\<lambda>c. c \<noteq> CHR '':'') d"
  unfolding directiveWords_def by (elim disjE | simp)+

lemma no_directive:
  assumes "CHR '':'' \<in> set w" "takeWhile (\<lambda>c. c \<noteq> CHR '':'') w \<notin> set directiveWords"
  shows "matchDirective (''{'' @ w @ r) = None"
proof -
  have "take (length d + 1) (w @ r) \<noteq> d @ '':''" if d: "d \<in> set directiveWords" for d
  proof
    assume "take (length d + 1) (w @ r) = d @ '':''"
    then have "takeWhile (\<lambda>c. c \<noteq> CHR '':'') (w @ r) = d"
      using word_no_colon [OF d] by (intro take_word) simp_all
    moreover have "takeWhile (\<lambda>c. c \<noteq> CHR '':'') (w @ r) = takeWhile (\<lambda>c. c \<noteq> CHR '':'') w"
      using assms(1) by (intro takeWhile_append1) simp_all
    ultimately show False
      using assms(2) d by simp
  qed
  then have "firstMatch directiveWords (w @ r) = None"
    by (rule firstMatch_None)
  then show ?thesis
    by (simp add: matchDirective_def startsWith_def)
qed

lemma reducer_std:
  "s \<noteq> [] \<Longrightarrow> extendedReducer (inputs, internal) m [None, None, None, None, Some s, Some w] =
     ((condAdd inputs internal (takeWhile identChar w), internal),
      spanExpr (''{'' @ spanVarName (takeWhile identChar w) @ dropWhile identChar w @ ''}''))"
  by (simp add: extendedReducer_def group_def truthy_def orElse_def parseFormatExpression_def
      Let_def dropWhile_eq_drop)

lemma span_not_error: "spanExpr x \<noteq> errorToken"
  by (simp add: spanExpr_def errorToken_def)

lemma std_token_step:
  assumes "list_all notBrace w" "matchDirective (''{'' @ w @ ''}'' @ rest) = None"
  shows "replaceMatches extendedFormatterRegex extendedReducer (inputs, internal) (''{'' @ w @ ''}'' @ rest) =
    (case replaceMatches extendedFormatterRegex extendedReducer
            (condAdd inputs internal (takeWhile identChar w), internal) rest of
       (st2, out) \<Rightarrow>
         (st2, spanExpr (''{'' @ spanVarName (takeWhile identChar w) @ dropWhile identChar w @ ''}'') @ out))"
proof -
  have "extendedFormatterRegex ((''{'' @ w @ ''}'') @ rest) =
    Some (''{'' @ w @ ''}'', [None, None, None, None, Some (''{'' @ w @ ''}''), Some w])"
    using regex_std [OF assms] by simp
  then have "replaceMatches extendedFormatterRegex extendedReducer (inputs, internal) ((''{'' @ w @ ''}'') @ rest) =
    (case extendedReducer (inputs, internal) (''{'' @ w @ ''}'')
            [None, None, None, None, Some (''{'' @ w @ ''}''), Some w] of
       (st1, r) \<Rightarrow>
         (case replaceMatches extendedFormatterRegex extendedReducer st1 rest of
            (st2, out) \<Rightarrow> (st2, r @ out)))"
    by (rule replaceMatches_token) simp
  then show ?thesis
    by (simp add: reducer_std)
qed

lemma reducer_join:
  "extendedReducer (inputs, internal) m [Some ''join'', Some p1, g3, p2, g5, g6] =
     ((condAdd inputs internal (takeWhile identChar p1),
       set_add (set_add internal ''item'') ''index''),
      spanExpr (''{join:'' @ spanVarName (takeWhile identChar p1) @ dropWhile identChar p1 @ '':'' @
                jsString p2 @ ''}''))"
  by (simp add: extendedReducer_def group_def orElse_def parseFormatExpression_def
      Let_def dropWhile_eq_drop jsString_def)

lemma set_has_add: "set_has (set_add s x) y = (set_has s y \<or> y = x)"
  by (auto simp add: set_has_def set_add_def)

lemma identChar_argChar: "identChar c \<Longrightarrow> argChar c"
  by (auto simp add: identChar_def argChar_def identStartChars_def digitChars_def)

lemma argChar_notBrace: "argChar c \<Longrightarrow> notBrace c"
  by (simp add: argChar_def notBrace_def)

lemma list_all_weaken: "list_all P xs \<Longrightarrow> (\<And>x. P x \<Longrightarrow> Q x) \<Longrightarrow> list_all Q xs"
  by (simp add: list_all_iff)

lemma word_argChar:
  "d \<in> set directiveWords \<Longrightarrow> list_all argChar d"
  unfolding directiveWords_def argChar_def by (elim disjE | simp)+

lemma no_directive_arg:
  assumes "list_all argChar w"
  shows "matchDirective (''{'' @ w @ ''}'' @ rest) = None"
proof -
  have "take (length d + 1) (w @ ''}'' @ rest) \<noteq> d @ '':''" if d: "d \<in> set directiveWords" for d
  proof
    assume eq: "take (length d + 1) (w @ ''}'' @ rest) = d @ '':''"
    have nc: "\<not> argChar (CHR '':'')"
      by (simp add: argChar_def)
    have "takeWhile argChar (w @ ''}'' @ rest) = d"
      using eq word_argChar [OF d] nc by (rule take_word)
    moreover have "takeWhile argChar (w @ ''}'' @ rest) = w"
      using assms by (simp add: takeWhile_stop argChar_def)
    ultimately have "w = d" by simp
    with eq show False by simp
  qed
  then have "firstMatch directiveWords (w @ ''}'' @ rest) = None"
    by (rule firstMatch_None)
  then show ?thesis
    by (simp add: matchDirective_def startsWith_def)
qed

lemma takeWhile_all: "list_all P xs \<Longrightarrow> takeWhile P xs = xs"
  by (simp add: list_all_iff)

lemma dropWhile_all: "list_all P xs \<Longrightarrow> dropWhile P xs = []"
  by (simp add: list_all_iff)

lemma join_token_step:
  assumes "p1 \<noteq> []" "list_all argChar p1" "p2 \<noteq> []" "list_all argChar p2"
  shows "replaceMatches extendedFormatterRegex extendedReducer (inputs, internal)
           (''{join:'' @ p1 @ '':'' @ p2 @ ''}'' @ rest) =
    (case replaceMatches extendedFormatterRegex extendedReducer
            (condAdd inputs internal (takeWhile identChar p1),
             set_add (set_add internal ''item'') ''index'') rest of
       (st2, out) \<Rightarrow>
         (st2, spanExpr (''{join:'' @ spanVarName (takeWhile identChar p1) @ dropWhile identChar p1 @
                         '':'' @ p2 @ ''}'') @ out))"
proof -
  have "''join'' \<in> set directiveWords"
    by (simp add: directiveWords_def)
  from regex_directive_two [OF this assms, of rest]
  have "extendedFormatterRegex ((''{join:'' @ p1 @ '':'' @ p2 @ ''}'') @ rest) =
    Some (''{join:'' @ p1 @ '':'' @ p2 @ ''}'',
          [Some ''join'', Some p1, Some ('':'' @ p2), Some p2, None, None])"
    by simp
  then have "replaceMatches extendedFormatterRegex extendedReducer (inputs, internal)
      ((''{join:'' @ p1 @ '':'' @ p2 @ ''}'') @ rest) =
    (case extendedReducer (inputs, internal) (''{join:'' @ p1 @ '':'' @ p2 @ ''}'')
            [Some ''join'', Some p1, Some ('':'' @ p2), Some p2, None, None] of
       (st1, r) \<Rightarrow>
         (case replaceMatches extendedFormatterRegex extendedReducer st1 rest of
            (st2, out) \<Rightarrow> (st2, r @ out)))"
    by (rule replaceMatches_token) simp
  then show ?thesis
    by (simp add: reducer_join jsString_def)
qed

lemma identChar_lazyDot: "identChar c \<Longrightarrow> lazyDot c"
proof -
  have "\<not> identChar (CHR ''}'')" "\<not> identChar (CHR 0x0A)" "\<not> identChar (CHR 0x0D)"
    by (simp_all add: identChar_def identStartChars_def digitChars_def)
  then show "identChar c \<Longrightarrow> lazyDot c"
    unfolding lazyDot_def dotChar_def by blast
qed

lemma regex_llm:
  assumes "list_all lazyDot v"
  shows "llmPromptRegex (''{'' @ v @ ''}'' @ rest) = Some (''{'' @ v @ ''}'', [Some v])"
proof -
  have a: "\<not> lazyDot (CHR ''}'')"
    by (simp add: lazyDot_def)
  show ?thesis
    using assms a
    by (simp add: llmPromptRegex_def Let_def startsWith_def takeWhile_stop dropWhile_stop)
qed

lemma llm_token_step:
  assumes "list_all lazyDot v"
  shows "replaceMatches llmPromptRegex llmReducer variables (''{'' @ v @ ''}'' @ rest) =
    (case replaceMatches llmPromptRegex llmReducer (set_add variables v) rest of
       (st2, out) \<Rightarrow> (st2, spanExpr (''{'' @ spanVarName v @ ''}'') @ out))"
proof -
  have "llmPromptRegex ((''{'' @ v @ ''}'') @ rest) = Some (''{'' @ v @ ''}'', [Some v])"
    using regex_llm [OF assms] by simp
  then have "replaceMatches llmPromptRegex llmReducer variables ((''{'' @ v @ ''}'') @ rest) =
    (case llmReducer variables (''{'' @ v @ ''}'') [Some v] of
       (st1, r) \<Rightarrow>
         (case replaceMatches llmPromptRegex llmReducer st1 rest of
            (st2, out) \<Rightarrow> (st2, r @ out)))"
    by (rule replaceMatches_token) simp
  then show ?thesis
    by (simp add: llmReducer_def group_def jsString_def)
qed

lemma reducer_one_arg:
  assumes "d \<in> set [''parse_json'', ''let'', ''int'', ''float'', ''expr'']"
  shows "snd (fst (extendedReducer (inputs, internal) m [Some d, Some p1, None, None, None, None])) =
      set_add internal ''data''
    \<and> snd (extendedReducer (inputs, internal) m [Some d, Some p1, None, None, None, None]) \<noteq> errorToken"
  using assms
  by (auto simp add: extendedReducer_def group_def orElse_def span_not_error split: prod.splits)

subsection \<open>A match is a non-empty prefix of the text\<close>

text \<open>
  The pass goes on behind a match by dropping as many characters as the match has; this
  is right because what each pattern returns as the match stands at the start of the text.
\<close>

lemma run_then_char:
  assumes "startsWith c (dropWhile P r)"
  shows "take (Suc (length (takeWhile P r))) r = takeWhile P r @ [c]"
proof -
  from assms obtain x where x: "dropWhile P r = c # x"
    by (cases "dropWhile P r") (auto simp add: startsWith_def)
  have "r = takeWhile P r @ c # x"
    using takeWhile_dropWhile_id [of P r] x by simp
  then have "take (Suc (length (takeWhile P r))) r =
      take (Suc (length (takeWhile P r))) (takeWhile P r @ c # x)"
    by simp
  then show ?thesis by simp
qed

lemma startsWith_Cons: "startsWith c s \<Longrightarrow> s = c # tl s"
  by (cases s) (auto simp add: startsWith_def)

lemma matchStd_prefix:
  assumes "matchStd s = Some (m, gs)"
  shows "m \<noteq> [] \<and> take (length m) s = m"
proof -
  from assms have b: "startsWith (CHR ''{'') s" "startsWith (CHR ''}'') (dropWhile notBrace (tl s))"
    and m: "m = ''{'' @ takeWhile notBrace (tl s) @ ''}''"
    by (auto simp add: matchStd_def Let_def split: if_splits)
  from b(1) have s: "s = CHR ''{'' # tl s"
    by (rule startsWith_Cons)
  have "take (length m) s = CHR ''{'' # take (Suc (length (takeWhile notBrace (tl s)))) (tl s)"
    by (subst s) (simp add: m)
  with run_then_char [OF b(2)] m show ?thesis by simp
qed

lemma llmPromptRegex_prefix:
  assumes "llmPromptRegex s = Some (m, gs)"
  shows "m \<noteq> [] \<and> take (length m) s = m"
proof -
  from assms have b: "startsWith (CHR ''{'') s" "startsWith (CHR ''}'') (dropWhile lazyDot (tl s))"
    and m: "m = ''{'' @ takeWhile lazyDot (tl s) @ ''}''"
    by (auto simp add: llmPromptRegex_def Let_def split: if_splits)
  from b(1) have s: "s = CHR ''{'' # tl s"
    by (rule startsWith_Cons)
  have "take (length m) s = CHR ''{'' # take (Suc (length (takeWhile lazyDot (tl s)))) (tl s)"
    by (subst s) (simp add: m)
  with run_then_char [OF b(2)] m show ?thesis by simp
qed

lemma apiVarRegex_prefix:
  assumes "apiVarRegex s = Some (m, gs)"
  shows "m \<noteq> [] \<and> take (length m) s = m"
proof -
  from assms have b: "startsWith (CHR ''{'') s" "startsWith (CHR ''}'') (dropWhile identChar (tl s))"
    and m: "m = ''{'' @ takeWhile identChar (tl s) @ ''}''"
    by (auto simp add: apiVarRegex_def Let_def split: if_splits)
  from b(1) have s: "s = CHR ''{'' # tl s"
    by (rule startsWith_Cons)
  have "take (length m) s = CHR ''{'' # take (Suc (length (takeWhile identChar (tl s)))) (tl s)"
    by (subst s) (simp add: m)
  with run_then_char [OF b(2)] m show ?thesis by simp
qed

lemma identRegex_prefix:
  assumes "identRegex s = Some (m, gs)"
  shows "m \<noteq> [] \<and> take (length m) s = m"
proof (cases s)
  case Nil
  with assms show ?thesis by (simp add: identRegex_def)
next
  case (Cons c r)
  with assms have m: "m = c # takeWhile identChar r"
    by (auto simp add: identRegex_def split: if_splits)
  have "take (length (takeWhile identChar r)) r = takeWhile identChar r"
    by (metis append_eq_conv_conj takeWhile_dropWhile_id)
  with m Cons show ?thesis by simp
qed


lemma matchDirectiveArgs_prefix:
  assumes "matchDirectiveArgs d r = Some (m, gs)"
  shows "m \<noteq> [] \<and> (\<exists>x. CHR ''{'' # r = m @ x)"
proof -
  define r1 where "r1 = drop (length d + 1) r"
  define r2 where "r2 = dropWhile argChar r1"
  define p1 where "p1 = takeWhile argChar r1"
  define p2 where "p2 = takeWhile argChar (tl r2)"
  define r4 where "r4 = dropWhile argChar (tl r2)"
  have w: "take (length d + 1) r = d @ '':''"
    using assms by (rule matchDirectiveArgs_word)
  have "r = take (length d + 1) r @ r1"
    unfolding r1_def by (rule append_take_drop_id [symmetric])
  moreover have "r1 = p1 @ r2"
    unfolding r2_def p1_def by simp
  ultimately have r: "r = d @ '':'' @ p1 @ r2"
    using w by simp
  from assms consider
      (two) "startsWith (CHR '':'') r2" "startsWith (CHR ''}'') r4"
        "m = ''{'' @ d @ '':'' @ p1 @ '':'' @ p2 @ ''}''"
    | (one) "startsWith (CHR ''}'') r2" "m = ''{'' @ d @ '':'' @ p1 @ ''}''"
    unfolding matchDirectiveArgs_def Let_def r1_def r2_def p1_def p2_def r4_def
    by (auto split: if_splits)
  then show ?thesis
  proof cases
    case two
    have "r2 = CHR '':'' # tl r2" "r4 = CHR ''}'' # tl r4"
      using two(1,2) by (auto dest: startsWith_Cons)
    moreover have "tl r2 = p2 @ r4"
      unfolding p2_def r4_def by simp
    ultimately have "r2 = '':'' @ p2 @ ''}'' @ tl r4"
      by simp
    with r two(3) have "CHR ''{'' # r = m @ tl r4"
      by simp
    with two(3) show ?thesis by auto
  next
    case one
    have "r2 = CHR ''}'' # tl r2"
      using one(1) by (rule startsWith_Cons)
    with r one(2) have "CHR ''{'' # r = m @ tl r2"
      by simp
    with one(2) show ?thesis by auto
  qed
qed

lemma firstMatch_prefix:
  "firstMatch ds r = Some (m, gs) \<Longrightarrow> m \<noteq> [] \<and> (\<exists>x. CHR ''{'' # r = m @ x)"
  by (induction ds) (auto split: option.splits dest: matchDirectiveArgs_prefix)

lemma extendedFormatterRegex_prefix:
  assumes "extendedFormatterRegex s = Some (m, gs)"
  shows "m \<noteq> [] \<and> take (length m) s = m"
proof (cases "matchDirective s")
  case None
  with assms have "matchStd s = Some (m, gs)"
    by (simp add: extendedFormatterRegex_def)
  then show ?thesis by (rule matchStd_prefix)
next
  case (Some a)
  with assms have md: "matchDirective s = Some (m, gs)"
    by (simp add: extendedFormatterRegex_def)
  then have b: "startsWith (CHR ''{'') s" and f: "firstMatch directiveWords (tl s) = Some (m, gs)"
    by (auto simp add: matchDirective_def split: if_splits)
  from firstMatch_prefix [OF f] startsWith_Cons [OF b] obtain x where "m \<noteq> []" "s = m @ x"
    by auto
  then show ?thesis by simp
qed

section \<open>The claims about the template scanner\<close>

subsection \<open>A directive bound before it is used\<close>

text \<open>
  Claim C2, as amended. In \<^verbatim>\<open>{expr:a:b}{let:b:c}\<close> the \<^verbatim>\<open>expr\<close> directive comes first and
  binds \<open>b\<close> as its second argument, so the later \<^verbatim>\<open>let\<close>, whose first argument is
  \<open>b\<close>, refers to an internal name: the input keys of the Reformat designer are exactly
  \<open>a\<close>. The sensitivity to order shows on the two tokens swapped: in
  \<^verbatim>\<open>{let:b:c}{expr:a:b}\<close> the name \<open>b\<close> is used before it is bound and is an input key.
\<close>

theorem C2_expr_then_let:
  "reformatInputKeys ''{expr:a:b}{let:b:c}'' = [''a''] \<and>
   reformatInputKeys ''{let:b:c}{expr:a:b}'' = [''b'', ''a'']"
  by code_simp

text \<open>
  The claim as stated says \<open>b\<close> is among the input keys of \<^verbatim>\<open>{expr:a:b}{let:b:c}\<close>; it
  is not.
\<close>

theorem C2_counterexample:
  "\<not> set_has (reformatInputKeys ''{expr:a:b}{let:b:c}'') ''b''"
  by code_simp


subsection \<open>Bracket contents with an unknown word before the colon\<close>

text \<open>
  Claim C3, as amended. A bracketed token whose content has no brace, contains a colon and
  has, before its first colon, a word that is none of the six directive words, is not an
  error token: the first alternative of the pattern fails and the second matches, so the
  reducer takes its plain-reference branch. Wherever the token stands in the text, and for
  every accumulated state, the leading identifier of the content is added to the external
  inputs unless it is an internal name, the internal names stay as they are, the rendering
  is the plain-reference span with the rest of the content copied behind the name, and
  that rendering is not the error marker.
\<close>

theorem C3_unknown_word_is_plain_reference:
  assumes "list_all notBrace w" "CHR '':'' \<in> set w"
    and "takeWhile (\<lambda>c. c \<noteq> CHR '':'') w \<notin> set directiveWords"
  shows "replaceMatches extendedFormatterRegex extendedReducer (inputs, internal) (''{'' @ w @ ''}'' @ rest) =
    (case replaceMatches extendedFormatterRegex extendedReducer
            (condAdd inputs internal (takeWhile identChar w), internal) rest of
       (st2, out) \<Rightarrow>
         (st2, spanExpr (''{'' @ spanVarName (takeWhile identChar w) @ dropWhile identChar w @ ''}'') @ out))
    \<and> spanExpr (''{'' @ spanVarName (takeWhile identChar w) @ dropWhile identChar w @ ''}'') \<noteq> errorToken"
  using std_token_step [OF assms(1) no_directive [OF assms(2,3)]] span_not_error by simp

text \<open>The theorem at the token \<^verbatim>\<open>{foo:bar}\<close>, scanned from the empty state.\<close>

theorem C3_witness:
  "replaceMatches extendedFormatterRegex extendedReducer ([], []) ''{foo:bar}'' =
     (([''foo''], []), spanExpr (''{'' @ spanVarName ''foo'' @ '':bar}''))"
  using C3_unknown_word_is_plain_reference [of "''foo:bar''" "[]" "[]" "[]"]
  by (simp add: notBrace_def directiveWords_def identChar_def identStartChars_def digitChars_def
      condAdd_def set_has_def set_add_def replaceMatches.simps)

text \<open>
  The claim as stated fails at \<^verbatim>\<open>{foo:bar}\<close>: the state changes (\<open>foo\<close> becomes an
  external input) and the rendering is not the error marker.
\<close>

theorem C3_counterexample:
  "fst (replaceMatches extendedFormatterRegex extendedReducer ([], []) ''{foo:bar}'') = ([''foo''], []) \<and>
   snd (replaceMatches extendedFormatterRegex extendedReducer ([], []) ''{foo:bar}'') \<noteq> errorToken"
  by code_simp

subsection \<open>The second argument of join\<close>

text \<open>
  Claim C4, as amended. The \<^verbatim>\<open>join\<close> branch of the reducer adds the fixed names
  \<open>item\<close> and \<open>index\<close> to the internal names and nothing else: its second argument
  is not bound. So for names \<open>x\<close> and \<open>out\<close> (non-empty, of letters, digits and
  underscores) the template \<^verbatim>\<open>{join:x:out}{out}\<close> has the input keys \<open>x\<close> and \<open>out\<close>;
  \<open>out\<close> is left out only where it is \<open>item\<close>, \<open>index\<close> or \<open>x\<close> itself.
\<close>

theorem C4_join_second_argument_not_bound:
  assumes "x \<noteq> []" "list_all identChar x" "out \<noteq> []" "list_all identChar out"
  shows "reformatInputKeys (''{join:'' @ x @ '':'' @ out @ ''}{'' @ out @ ''}'') =
      (if out = ''item'' \<or> out = ''index'' \<or> out = x then [x] else [x, out])
    \<and> (\<forall>inputs internal m g3 g5 g6.
         snd (fst (extendedReducer (inputs, internal) m [Some ''join'', Some x, g3, Some out, g5, g6])) =
         set_add (set_add internal ''item'') ''index'')"
proof -
  have ax: "list_all argChar x" and aout: "list_all argChar out"
    using assms(2,4) identChar_argChar by (auto intro: list_all_weaken)
  have nout: "list_all notBrace out"
    using aout argChar_notBrace by (auto intro: list_all_weaken)
  have 1: "replaceMatches extendedFormatterRegex extendedReducer ([], [])
      (''{join:'' @ x @ '':'' @ out @ ''}'' @ ''{'' @ out @ ''}'' @ []) =
    (case replaceMatches extendedFormatterRegex extendedReducer
            (condAdd [] [] x, [''item'', ''index'']) (''{'' @ out @ ''}'' @ []) of
       (st2, r) \<Rightarrow>
         (st2, spanExpr (''{join:'' @ spanVarName x @ '':'' @ out @ ''}'') @ r))"
    using join_token_step [OF assms(1) ax assms(3) aout, of "[]" "[]" "''{'' @ out @ ''}'' @ []"]
    by (simp add: takeWhile_all [OF assms(2)] dropWhile_all [OF assms(2)] set_add_def set_has_def)
  have 2: "replaceMatches extendedFormatterRegex extendedReducer
      (condAdd [] [] x, [''item'', ''index'']) (''{'' @ out @ ''}'' @ []) =
    ((condAdd (condAdd [] [] x) [''item'', ''index''] out, [''item'', ''index'']),
     spanExpr (''{'' @ spanVarName out @ ''}''))"
    using std_token_step [OF nout no_directive_arg [OF aout], where rest = "[]"
        and inputs = "condAdd [] [] x" and internal = "[''item'', ''index'']"]
    by (simp add: takeWhile_all [OF assms(4)] dropWhile_all [OF assms(4)] replaceMatches.simps(1))
  have "reformatInputKeys (''{join:'' @ x @ '':'' @ out @ ''}{'' @ out @ ''}'') =
      condAdd (condAdd [] [] x) [''item'', ''index''] out"
    using 1 2 by (simp add: reformatInputKeys_def reformatFormat_def format_def)
  then have "reformatInputKeys (''{join:'' @ x @ '':'' @ out @ ''}{'' @ out @ ''}'') =
      (if out = ''item'' \<or> out = ''index'' \<or> out = x then [x] else [x, out])"
    by (auto simp add: condAdd_def set_add_def set_has_def)
  moreover have "snd (fst (extendedReducer (inputs, internal) m [Some ''join'', Some x, g3, Some out, g5, g6])) =
         set_add (set_add internal ''item'') ''index''" for inputs internal m g3 g5 g6
    by (simp add: reducer_join)
  ultimately show ?thesis by blast
qed

text \<open>
  The theorem at \<open>x\<close> and \<open>out\<close>.
\<close>

theorem C4_witness:
  "reformatInputKeys ''{join:x:out}{out}'' = [''x'', ''out'']"
  using C4_join_second_argument_not_bound [of "''x''" "''out''"]
  by (simp add: identChar_def identStartChars_def digitChars_def)

text \<open>
  The claim as stated says \<open>out\<close> is excluded from the input keys of
  \<^verbatim>\<open>{join:x:out}{out}\<close>; it is among them.
\<close>

theorem C4_counterexample:
  "set_has (reformatInputKeys ''{join:x:out}{out}'') ''out''"
  by code_simp


subsection \<open>The modifier tail of a plain reference\<close>

text \<open>
  Claim C5, as amended. Take a token \<^verbatim>\<open>{name<tail>}\<close> that is a plain reference (the
  directive alternative of the pattern does not match it), with \<open>name\<close> its leading
  identifier and a non-empty, brace-free tail. In a template of the Reformat designer, from
  every state and before every rest of the text, the name alone is added to the external
  inputs (unless it is internal), and the tail is copied into the rendering behind it.
  In a prompt of the LLM designer, whose pattern and callback are different, the whole
  content of the braces, name and tail together, is added as one input key (for a tail
  without line terminators).
\<close>

theorem C5_tail_of_plain_reference:
  assumes "list_all identChar name" "tail \<noteq> []" "\<not> identChar (hd tail)" "list_all notBrace tail"
    and "matchDirective (''{'' @ name @ tail @ ''}'' @ rest) = None"
  shows "replaceMatches extendedFormatterRegex extendedReducer (inputs, internal)
           (''{'' @ name @ tail @ ''}'' @ rest) =
      (case replaceMatches extendedFormatterRegex extendedReducer
              (condAdd inputs internal name, internal) rest of
         (st2, out) \<Rightarrow> (st2, spanExpr (''{'' @ spanVarName name @ tail @ ''}'') @ out))
    \<and> (list_all dotChar tail \<longrightarrow>
         replaceMatches llmPromptRegex llmReducer variables (''{'' @ name @ tail @ ''}'' @ rest) =
         (case replaceMatches llmPromptRegex llmReducer (set_add variables (name @ tail)) rest of
            (st2, out) \<Rightarrow> (st2, spanExpr (''{'' @ spanVarName (name @ tail) @ ''}'') @ out)))"
proof -
  from assms(2) obtain c t where tail: "tail = c # t"
    by (cases tail) auto
  with assms(3) have c: "\<not> identChar c"
    by simp
  have tw: "takeWhile identChar (name @ tail) = name"
    unfolding tail using assms(1) c by (rule takeWhile_stop)
  have dw: "dropWhile identChar (name @ tail) = tail"
    unfolding tail using assms(1) c by (rule dropWhile_stop)
  have "list_all notBrace name"
    using assms(1) by (rule list_all_weaken) (rule argChar_notBrace [OF identChar_argChar])
  with assms(4) have nb: "list_all notBrace (name @ tail)"
    by simp
  have md: "matchDirective (''{'' @ (name @ tail) @ ''}'' @ rest) = None"
    using assms(5) by simp
  have first: "replaceMatches extendedFormatterRegex extendedReducer (inputs, internal)
           (''{'' @ name @ tail @ ''}'' @ rest) =
      (case replaceMatches extendedFormatterRegex extendedReducer
              (condAdd inputs internal name, internal) rest of
         (st2, out) \<Rightarrow> (st2, spanExpr (''{'' @ spanVarName name @ tail @ ''}'') @ out))"
    using std_token_step [OF nb md, of inputs internal] unfolding tw dw by simp
  have second: "replaceMatches llmPromptRegex llmReducer variables (''{'' @ name @ tail @ ''}'' @ rest) =
         (case replaceMatches llmPromptRegex llmReducer (set_add variables (name @ tail)) rest of
            (st2, out) \<Rightarrow> (st2, spanExpr (''{'' @ spanVarName (name @ tail) @ ''}'') @ out))"
    if dots: "list_all dotChar tail"
  proof -
    have "list_all lazyDot name"
      using assms(1) by (rule list_all_weaken) (rule identChar_lazyDot)
    moreover have "list_all lazyDot tail"
      using assms(4) dots by (simp add: list_all_iff lazyDot_def notBrace_def)
    ultimately have "list_all lazyDot (name @ tail)"
      by simp
    from llm_token_step [OF this, of variables rest] show ?thesis by simp
  qed
  from first second show ?thesis by blast
qed

text \<open>
  The theorem at \<^verbatim>\<open>{name.upper()}\<close>, scanned by each designer from its empty state.
\<close>

theorem C5_witness:
  "replaceMatches extendedFormatterRegex extendedReducer ([], []) ''{name.upper()}'' =
     (([''name''], []), spanExpr (''{'' @ spanVarName ''name'' @ ''.upper()}'')) \<and>
   replaceMatches llmPromptRegex llmReducer [] ''{name.upper()}'' =
     ([''name.upper()''], spanExpr (''{'' @ spanVarName ''name.upper()'' @ ''}''))"
proof -
  have m: "matchDirective (''{'' @ ''name'' @ ''.upper()'' @ ''}'' @ []) = None"
    by code_simp
  show ?thesis
    using C5_tail_of_plain_reference [of "''name''" "''.upper()''" "[]" "[]" "[]" "[]", OF _ _ _ _ m]
    by (simp add: identChar_def identStartChars_def digitChars_def notBrace_def dotChar_def
        condAdd_def set_add_def set_has_def replaceMatches.simps(1))
qed

text \<open>
  The claim as stated extends to LLM prompts; there the tail becomes part of the input
  key.
\<close>

theorem C5_counterexample:
  "llmInputKeys ''{name.upper()}'' = [''name.upper()''] \<and>
   llmInputKeys ''{name.upper()}'' \<noteq> [''name'']"
  by code_simp


subsection \<open>The loop names of join\<close>

text \<open>
  Claim C6. The template \<^verbatim>\<open>{join:items:out}{item}-{index}\<close> has exactly the input key
  \<open>items\<close>; and whatever the state and the arguments of a \<^verbatim>\<open>join\<close> are, the names
  \<open>item\<close> and \<open>index\<close> are internal after it.
\<close>

theorem C6_join_binds_item_and_index:
  "reformatInputKeys ''{join:items:out}{item}-{index}'' = [''items''] \<and>
   (\<forall>inputs internal m p1 g3 p2 g5 g6.
      set_has (snd (fst (extendedReducer (inputs, internal) m [Some ''join'', p1, g3, p2, g5, g6]))) ''item'' \<and>
      set_has (snd (fst (extendedReducer (inputs, internal) m [Some ''join'', p1, g3, p2, g5, g6]))) ''index'')"
proof -
  have "reformatInputKeys ''{join:items:out}{item}-{index}'' = [''items'']"
    by code_simp
  moreover have "snd (fst (extendedReducer (inputs, internal) m [Some ''join'', p1, g3, p2, g5, g6])) =
      set_add (set_add internal ''item'') ''index''" for inputs internal m p1 g3 p2 g5 g6
    by (simp add: extendedReducer_def group_def split: prod.splits)
  ultimately show ?thesis
    by (simp add: set_has_add)
qed


subsection \<open>Directives with one argument\<close>

text \<open>
  Claim C10. For each of \<^verbatim>\<open>parse_json\<close>, \<^verbatim>\<open>let\<close>, \<^verbatim>\<open>int\<close>, \<^verbatim>\<open>float\<close> and \<^verbatim>\<open>expr\<close>
  and every non-empty first argument without colon or brace, the token without a second
  argument matches the directive alternative of the pattern, with the groups of the second
  argument undefined; the reducer then adds the fixed name \<open>data\<close> to the internal
  names, and its rendering is not the error marker. A \<^verbatim>\<open>join\<close> without a second
  argument matches as well, and adds \<open>item\<close> and \<open>index\<close> to the internal names and
  nothing else.
\<close>

theorem C10_second_argument_optional:
  assumes "d \<in> set [''parse_json'', ''let'', ''int'', ''float'', ''expr'']"
    and "p1 \<noteq> []" "list_all argChar p1"
  shows "extendedFormatterRegex (''{'' @ d @ '':'' @ p1 @ ''}'' @ rest) =
      Some (''{'' @ d @ '':'' @ p1 @ ''}'', [Some d, Some p1, None, None, None, None])
    \<and> snd (fst (extendedReducer (inputs, internal) m [Some d, Some p1, None, None, None, None])) =
      set_add internal ''data''
    \<and> snd (extendedReducer (inputs, internal) m [Some d, Some p1, None, None, None, None]) \<noteq> errorToken
    \<and> extendedFormatterRegex (''{join:'' @ p1 @ ''}'' @ rest) =
      Some (''{join:'' @ p1 @ ''}'', [Some ''join'', Some p1, None, None, None, None])
    \<and> snd (fst (extendedReducer (inputs, internal) m [Some ''join'', Some p1, None, None, None, None])) =
      set_add (set_add internal ''item'') ''index''
    \<and> snd (extendedReducer (inputs, internal) m [Some ''join'', Some p1, None, None, None, None]) \<noteq> errorToken"
proof -
  have d: "d \<in> set directiveWords" and j: "''join'' \<in> set directiveWords"
    using assms(1) by (auto simp add: directiveWords_def)
  have "extendedFormatterRegex (''{join:'' @ p1 @ ''}'' @ rest) =
      Some (''{join:'' @ p1 @ ''}'', [Some ''join'', Some p1, None, None, None, None])"
    using regex_directive_one [OF j assms(2,3), of rest] by simp
  then show ?thesis
    using regex_directive_one [OF d assms(2,3), of rest] reducer_one_arg [OF assms(1)]
    by (simp add: reducer_join span_not_error)
qed

text \<open>
  The theorem at \<^verbatim>\<open>{let:x}\<close> and \<^verbatim>\<open>{join:x}\<close>, from the empty state.
\<close>

theorem C10_witness:
  "extendedFormatterRegex ''{let:x}'' =
     Some (''{let:x}'', [Some ''let'', Some ''x'', None, None, None, None]) \<and>
   snd (fst (extendedReducer ([], []) ''{let:x}'' [Some ''let'', Some ''x'', None, None, None, None])) =
     [''data''] \<and>
   extendedFormatterRegex ''{join:x}'' =
     Some (''{join:x}'', [Some ''join'', Some ''x'', None, None, None, None]) \<and>
   snd (fst (extendedReducer ([], []) ''{join:x}'' [Some ''join'', Some ''x'', None, None, None, None])) =
     [''item'', ''index'']"
  using C10_second_argument_optional [of "''let''" "''x''" "[]" "[]" "[]" "''{let:x}''"]
    C10_second_argument_optional [of "''let''" "''x''" "[]" "[]" "[]" "''{join:x}''"]
  by (simp add: argChar_def set_add_def set_has_def)


section \<open>The claims about the editor session\<close>

subsection \<open>Which tree an operation writes\<close>

text \<open>
  Claim C1, as amended. A successful replace (\<^verbatim>\<open>updateDirtyChainSpec\<close>) writes the working
  tree only: the committed tree and every other field of the session are as before. A
  successful insert (\<^verbatim>\<open>insertChainSpec\<close>) does not leave the committed tree alone: the tree
  that the insertion into the working tree gives is stored, through \<^verbatim>\<open>setChains\<close>, as the
  committed and as the working tree, and the id counter goes up by one.
\<close>

theorem C1_replace_writes_working_insert_writes_both:
  "(updateDirtyChainSpec s spec = Inr s' \<longrightarrow>
      chainSpec s' = chainSpec s \<and> s' = s\<lparr>dirtyChainSpec := dirtyChainSpec s'\<rparr>) \<and>
   (insertChainSpec s type parentId index = Inr s'' \<longrightarrow>
      (\<exists>t. insertGeneratedChainSpec (dirtyChainSpec s) (nextChainId s) type parentId index = Inr t \<and>
           chainSpec s'' = Some t \<and> dirtyChainSpec s'' = Some t) \<and>
      nextChainId s'' = nextChainId s + 1)"
  by (auto simp add: updateDirtyChainSpec_def insertChainSpec_def setChains_def
      split: prod.splits if_splits sum.splits)

text \<open>
  The theorem at a replace of the root of a one-node session and at an insert into a
  Sequential root.
\<close>

theorem C1_witness:
  "updateDirtyChainSpec (setChains initialState (LLMSpec 0 [] [] [] [])) (LLMSpec 0 ''hi'' [] [] []) =
     Inr (initialState\<lparr>chainSpec := Some (LLMSpec 0 [] [] [] []),
                        dirtyChainSpec := Some (LLMSpec 0 ''hi'' [] [] [])\<rparr>) \<and>
   chainSpec (initialState\<lparr>chainSpec := Some (LLMSpec 0 [] [] [] []),
                           dirtyChainSpec := Some (LLMSpec 0 ''hi'' [] [] [])\<rparr>) =
     chainSpec (setChains initialState (LLMSpec 0 [] [] [] [])) \<and>
   insertChainSpec (initialState\<lparr>chainSpec := Some (SequentialSpec 0 []),
                                   dirtyChainSpec := Some (SequentialSpec 0 []),
                                   nextChainId := 1\<rparr>) api_spec 0 0 =
     Inr (initialState\<lparr>chainSpec := Some (SequentialSpec 0 [APISpec 1 [] [] [] None [] []]),
                        dirtyChainSpec := Some (SequentialSpec 0 [APISpec 1 [] [] [] None [] []]),
                        nextChainId := 2\<rparr>) \<and>
   dirtyChainSpec (initialState\<lparr>chainSpec := Some (SequentialSpec 0 [APISpec 1 [] [] [] None [] []]),
                                dirtyChainSpec := Some (SequentialSpec 0 [APISpec 1 [] [] [] None [] []]),
                                nextChainId := 2\<rparr>) =
     chainSpec (initialState\<lparr>chainSpec := Some (SequentialSpec 0 [APISpec 1 [] [] [] None [] []]),
                             dirtyChainSpec := Some (SequentialSpec 0 [APISpec 1 [] [] [] None [] []]),
                             nextChainId := 2\<rparr>)"
  using C1_replace_writes_working_insert_writes_both
    [of "setChains initialState (LLMSpec 0 [] [] [] [])" "LLMSpec 0 ''hi'' [] [] []"
        "initialState\<lparr>chainSpec := Some (LLMSpec 0 [] [] [] []),
                       dirtyChainSpec := Some (LLMSpec 0 ''hi'' [] [] [])\<rparr>"
        llm_spec 0 0 "initialState"]
    C1_replace_writes_working_insert_writes_both
    [of "initialState\<lparr>chainSpec := Some (SequentialSpec 0 []),
                       dirtyChainSpec := Some (SequentialSpec 0 []),
                       nextChainId := 1\<rparr>" "LLMSpec 0 [] [] [] []"
        "initialState" api_spec 0 0
        "initialState\<lparr>chainSpec := Some (SequentialSpec 0 [APISpec 1 [] [] [] None [] []]),
                       dirtyChainSpec := Some (SequentialSpec 0 [APISpec 1 [] [] [] None [] []]),
                       nextChainId := 2\<rparr>"]
  by (simp add: updateDirtyChainSpec_def updateChainSpec_def insertChainSpec_def
      insertGeneratedChainSpec_def setChains_def initialState_def)

text \<open>
  The claim as stated fails at the first insert of a session: the committed tree changes
  from none to the new root, and the session is ready (clean), not dirty, after it.
\<close>

theorem C1_counterexample:
  "insertChainSpec initialState llm_spec 0 0 =
     Inr (initialState\<lparr>chainSpec := Some (LLMSpec 0 [] [] [] []),
                        dirtyChainSpec := Some (LLMSpec 0 [] [] [] []),
                        nextChainId := 1\<rparr>) \<and>
   chainSpec (initialState\<lparr>chainSpec := Some (LLMSpec 0 [] [] [] []),
                           dirtyChainSpec := Some (LLMSpec 0 [] [] [] []),
                           nextChainId := 1\<rparr>) \<noteq> chainSpec initialState \<and>
   readyToInteract (initialState\<lparr>chainSpec := Some (LLMSpec 0 [] [] [] []),
                                 dirtyChainSpec := Some (LLMSpec 0 [] [] [] []),
                                 nextChainId := 1\<rparr>)"
  by (simp add: insertChainSpec_def insertGeneratedChainSpec_def initialState_def setChains_def
      readyToInteract_def deepEquals_def)


subsection \<open>The ready flag\<close>

text \<open>
  Claim C7, as amended. \<^verbatim>\<open>readyToInteract\<close> is true if and only if a committed tree is
  loaded, a working tree is there and the two are structurally equal. Where no tree has
  been loaded the flag is false.
\<close>

theorem C7_ready_needs_committed_tree:
  "readyToInteract s =
     (\<exists>a b. chainSpec s = Some a \<and> dirtyChainSpec s = Some b \<and> structuralEquals a b)"
  by (auto simp add: readyToInteract_def deepEquals_def split: option.splits)

text \<open>
  The theorem at the session that holds one node as committed and as working tree.
\<close>

theorem C7_witness:
  "readyToInteract (setChains initialState (LLMSpec 0 [] [] [] []))"
  using C7_ready_needs_committed_tree [of "setChains initialState (LLMSpec 0 [] [] [] [])"]
  by (simp add: setChains_def)

text \<open>
  The claim as stated includes the state where no tree has been loaded yet: there the
  committed and the working tree are equal (both none) and the flag is false.
\<close>

theorem C7_counterexample:
  "deepEquals (chainSpec initialState) (dirtyChainSpec initialState) \<and>
   \<not> readyToInteract initialState"
  by (simp add: initialState_def deepEquals_def readyToInteract_def)


subsection \<open>Replacing a node that is not there\<close>

lemma replace_absent:
  "chain_id new \<notin> set (chainIds t) \<Longrightarrow> replaceSpec t new = (False, t)"
  "chain_id new \<notin> set (chainIdsOfChains cs) \<Longrightarrow> replaceInChains cs new = (False, cs)"
  "chain_id new \<notin> set (chainIdsOfCases kcs) \<Longrightarrow> replaceInCases kcs new = (False, kcs)"
  by (induction t new and cs new and kcs new
      rule: replaceSpec_replaceInChains_replaceInCases.induct)
    (auto split: option.splits)

text \<open>
  Claim C8. If no node of the working tree has the id of the replacement, the replace
  operation of the tree engine reports not found and gives the tree back as it was, and
  \<^verbatim>\<open>updateDirtyChainSpec\<close> throws: it returns the not-found error and no new state, so the
  working tree stays as it was.
\<close>

theorem C8_replace_absent_id_fails:
  assumes "dirtyChainSpec s = Some t" "chain_id spec \<notin> set (chainIds t)"
  shows "updateChainSpec (dirtyChainSpec s) spec = (False, dirtyChainSpec s) \<and>
         updateDirtyChainSpec s spec = Inl (NodeNotFound (chain_id spec))"
  using assms replace_absent(1) [of spec t]
  by (simp add: updateChainSpec_def updateDirtyChainSpec_def)

text \<open>
  The theorem at a Sequential root with one child and a replacement with another id.
\<close>

theorem C8_witness:
  "updateDirtyChainSpec
     (initialState\<lparr>chainSpec := Some (SequentialSpec 0 [LLMSpec 1 [] [] [] []]),
                    dirtyChainSpec := Some (SequentialSpec 0 [LLMSpec 1 [] [] [] []]),
                    nextChainId := 2\<rparr>)
     (LLMSpec 7 ''hello'' [] [] []) = Inl (NodeNotFound 7)"
  using C8_replace_absent_id_fails
    [of "initialState\<lparr>chainSpec := Some (SequentialSpec 0 [LLMSpec 1 [] [] [] []]),
                    dirtyChainSpec := Some (SequentialSpec 0 [LLMSpec 1 [] [] [] []]),
                    nextChainId := 2\<rparr>"
        "SequentialSpec 0 [LLMSpec 1 [] [] [] []]" "LLMSpec 7 ''hello'' [] [] []"]
  by simp


section \<open>The claim about the headers of an API node\<close>

lemma tryParseHeaders_fail:
  "parse str = None \<Longrightarrow> tryParseHeaders parse h str = (True, h)"
  by (simp add: tryParseHeaders_def)

text \<open>
  Claim C9, as amended. When the headers text does not parse, the effect of the designer
  still produces its node, and no exception leaves it: the node carries the headers of the
  spec the designer was rendered with, the error flag is raised, and the text the user
  typed stays in the state of the designer.
\<close>

theorem C9_unparsable_headers:
  assumes "parse text' = None"
  shows "apiSpecEffect parse (APISpec i u m h b out ks) (st\<lparr>headers := text'\<rparr>) =
    Some (st\<lparr>headers := text', headersError := True\<rparr>,
          APISpec i (url st) (method' st) h (body st) (outputKey st)
            (apiVars (st\<lparr>headers := text'\<rparr>)))"
  using assms by (simp add: tryParseHeaders_fail)

text \<open>
  The theorem at a text with its closing brace missing.
\<close>

theorem C9_witness:
  \<open>apiSpecEffect (parseOnly ''{"a": "b"}'' [(''a'', ''b'')])
     (APISpec 0 [] [] [(''k'', ''v'')] None [] [])
     (\<lparr>url = [], method' = [], headers = ''{"a": "b"}'', headersError = False, body = None,
       outputKey = []\<rparr>\<lparr>headers := ''{"a": "b"''\<rparr>) =
   Some (\<lparr>url = [], method' = [], headers = ''{"a": "b"'', headersError = True, body = None,
          outputKey = []\<rparr>,
         APISpec 0 [] [] [(''k'', ''v'')] None [] [])\<close>
proof -
  have v: \<open>apiVars \<lparr>url = [], method' = [], headers = ''{"a": "b"'', headersError = False,
      body = None, outputKey = []\<rparr> = []\<close>
    by code_simp
  show ?thesis
    using C9_unparsable_headers [of \<open>parseOnly ''{"a": "b"}'' [(''a'', ''b'')]\<close> \<open>''{"a": "b"''\<close>
        0 "[]" "[]" "[(''k'', ''v'')]" None "[]" "[]"
        \<open>\<lparr>url = [], method' = [], headers = ''{"a": "b"}'', headersError = False, body = None,
          outputKey = []\<rparr>\<close>] v
    by (simp add: parseOnly_def)
qed

text \<open>
  The claim as stated says the node keeps the last successfully parsed headers. The
  designer is rendered with the committed tree, which an update does not change. On a
  session whose root is an API node without headers, the user types a text that parses to
  one header; the working tree takes it. The user then deletes the closing brace: the text
  does not parse, and the working tree is back at the headers of the committed tree, none,
  not at the header parsed last.
\<close>

theorem C9_counterexample:
  \<open>changeHeaders (parseOnly ''{"a": "b"}'' [(''a'', ''b'')])
     (initialState\<lparr>chainSpec := Some (APISpec 0 [] [] [] None [] []),
                    dirtyChainSpec := Some (APISpec 0 [] [] [] None [] []),
                    nextChainId := 1\<rparr>)
     \<lparr>url = [], method' = [], headers = ''{}'', headersError = False, body = None,
      outputKey = []\<rparr>
     ''{"a": "b"}'' =
   Inr (initialState\<lparr>chainSpec := Some (APISpec 0 [] [] [] None [] []),
                      dirtyChainSpec := Some (APISpec 0 [] [] [(''a'', ''b'')] None [] []),
                      nextChainId := 1\<rparr>,
        \<lparr>url = [], method' = [], headers = ''{"a": "b"}'', headersError = False, body = None,
         outputKey = []\<rparr>) \<and>
   changeHeaders (parseOnly ''{"a": "b"}'' [(''a'', ''b'')])
     (initialState\<lparr>chainSpec := Some (APISpec 0 [] [] [] None [] []),
                    dirtyChainSpec := Some (APISpec 0 [] [] [(''a'', ''b'')] None [] []),
                    nextChainId := 1\<rparr>)
     \<lparr>url = [], method' = [], headers = ''{"a": "b"}'', headersError = False, body = None,
      outputKey = []\<rparr>
     ''{"a": "b"'' =
   Inr (initialState\<lparr>chainSpec := Some (APISpec 0 [] [] [] None [] []),
                      dirtyChainSpec := Some (APISpec 0 [] [] [] None [] []),
                      nextChainId := 1\<rparr>,
        \<lparr>url = [], method' = [], headers = ''{"a": "b"'', headersError = True, body = None,
         outputKey = []\<rparr>)\<close>
  by code_simp


end
